theory Spec2Isabelle
  imports Main "HOL-Library.Sublist"
begin

section \<open>JavaScript values\<close>

text \<open>
  Schemas, tool arguments and every field the source types as \<open>any\<close> are JavaScript
  values. The values of the model are plain data: an object is the list of its own
  enumerable entries in the order \<open>Object.entries\<close> yields them (keys pairwise distinct),
  and its prototype is \<open>Object.prototype\<close>. A number only ever meets a truthiness test or
  is passed on, so an integer stands for it. A character of a string stands for one code
  unit.

  What a value inherits from its prototype enters in two places. A read \<open>v[k]\<close> finds
  the own property \<open>k\<close> of \<open>v\<close> and otherwise what the prototype chain of \<open>v\<close> defines
  under \<open>k\<close>. The reads of the names the source spells out (\<open>type\<close>, \<open>properties\<close>,
  \<open>items\<close>, \<open>example\<close>, \<open>default\<close>, \<open>description\<close>, \<open>required\<close>, \<open>$ref\<close> and the
  fields of a route schema) are own reads, \<open>get_prop\<close>: no prototype of a data value
  defines one of these names. Where the caller of the request handler chooses the key,
  the read is \<open>read_truthy\<close>, which also consults the prototype chain. The model
  follows the segments of a reference path through own properties only: a segment that
  names an inherited property (\<open>constructor\<close>, \<open>toString\<close>) reads a built-in function,
  which is no data value, and is treated as missing. An assignment \<open>o[k] = v\<close> to
  an object made by a literal stores an own entry for every key but \<open>__proto__\<close>, where
  the setter of \<open>Object.prototype\<close> runs instead and no entry is stored; the prototype
  an object acquires this way is not part of the model.
\<close>

datatype json =
    JUndef
  | JNull
  | JBool bool
  | JNum int
  | JStr string
  | JArr "json list"
  | JObj "(string \<times> json) list"

datatype js_error = TypeError

text \<open>The truthiness test of \<open>if (x)\<close>, \<open>!x\<close> and \<open>x || y\<close>.\<close>

fun truthy :: "json \<Rightarrow> bool" where
  "truthy JUndef = False"
| "truthy JNull = False"
| "truthy (JBool b) = b"
| "truthy (JNum n) = (n \<noteq> 0)"
| "truthy (JStr s) = (s \<noteq> [])"
| "truthy (JArr xs) = True"
| "truthy (JObj kvs) = True"

definition js_or :: "json \<Rightarrow> json \<Rightarrow> json" where
  "js_or a b = (if truthy a then a else b)"

text \<open>\<open>x === null || x === undefined\<close>, the test of \<open>?.\<close> and \<open>??\<close>.\<close>

fun nullish :: "json \<Rightarrow> bool" where
  "nullish JUndef = True"
| "nullish JNull = True"
| "nullish v = False"

text \<open>Canonical array indices (\<open>"0"\<close>, \<open>"1"\<close>, \<open>"27"\<close>) and their decimal spelling.\<close>

definition is_digit :: "char \<Rightarrow> bool" where
  "is_digit c = (c \<in> set ''0123456789'')"

definition digit_of :: "char \<Rightarrow> nat" where
  "digit_of c = of_char c - 48"

definition array_index :: "string \<Rightarrow> nat option" where
  "array_index k =
     (if k \<noteq> [] \<and> list_all is_digit k \<and> (k = ''0'' \<or> hd k \<noteq> CHR ''0'')
      then Some (foldl (\<lambda>a c. 10 * a + digit_of c) 0 k) else None)"

fun index_key :: "nat \<Rightarrow> string" where
  "index_key n =
     (if n < 10 then [char_of (48 + n)]
      else index_key (n div 10) @ [char_of (48 + n mod 10)])"

text \<open>
  The property read \<open>v[k]\<close> on a value that is neither \<open>null\<close> nor \<open>undefined\<close>
  (on those two the read throws, which each caller below writes out).
\<close>

fun get_prop :: "json \<Rightarrow> string \<Rightarrow> json" where
  "get_prop (JObj kvs) k = (case map_of kvs k of Some v \<Rightarrow> v | None \<Rightarrow> JUndef)"
| "get_prop (JArr xs) k =
     (if k = ''length'' then JNum (int (length xs))
      else case array_index k of
             Some i \<Rightarrow> if i < length xs then xs ! i else JUndef
           | None \<Rightarrow> JUndef)"
| "get_prop (JStr s) k =
     (if k = ''length'' then JNum (int (length s))
      else case array_index k of
             Some i \<Rightarrow> if i < length s then JStr [s ! i] else JUndef
           | None \<Rightarrow> JUndef)"
| "get_prop v k = JUndef"

text \<open>Optional chaining \<open>v?.[k]\<close>.\<close>

definition opt_prop :: "json \<Rightarrow> string \<Rightarrow> json" where
  "opt_prop v k = (if nullish v then JUndef else get_prop v k)"

text \<open>\<open>Object.entries(v)\<close> for a value that is neither \<open>null\<close> nor \<open>undefined\<close>.\<close>

fun object_entries :: "json \<Rightarrow> (string \<times> json) list" where
  "object_entries (JObj kvs) = kvs"
| "object_entries (JArr xs) = zip (map index_key [0..<length xs]) xs"
| "object_entries (JStr s) = zip (map index_key [0..<length s]) (map (\<lambda>c. JStr [c]) s)"
| "object_entries v = []"

text \<open>
  The assignment \<open>obj[k] = v\<close> on an object that a literal \<open>{}\<close> created. Under the
  key \<open>__proto__\<close> the setter inherited from \<open>Object.prototype\<close> runs and the object
  gets no own entry. Under any other key the own entry is written: an existing key keeps
  its place, a new key is appended. (JavaScript lists integer-like keys first; nothing
  below depends on the order of the keys written.)
\<close>

fun put_entry :: "(string \<times> json) list \<Rightarrow> string \<Rightarrow> json \<Rightarrow> (string \<times> json) list" where
  "put_entry [] k v = [(k, v)]"
| "put_entry ((k', v') # kvs) k v =
     (if k' = k then (k, v) # kvs else (k', v') # put_entry kvs k v)"

definition obj_set :: "(string \<times> json) list \<Rightarrow> string \<Rightarrow> json \<Rightarrow> (string \<times> json) list" where
  "obj_set kvs k v = (if k = ''__proto__'' then kvs else put_entry kvs k v)"

text \<open>
  The own entries of the object that the loop
  \<open>for (const [key, value] of entries) result[key] = value\<close> builds from \<open>{}\<close> when the
  keys are pairwise distinct, as the keys of an object are: every entry but one under
  \<open>__proto__\<close> (lemma \<open>fold_obj_set_distinct\<close> below).
\<close>

definition stored_entries :: "(string \<times> json) list \<Rightarrow> (string \<times> json) list" where
  "stored_entries es = filter (\<lambda>(k, v). k \<noteq> ''__proto__'') es"



section \<open>Schema services (services/schema.ts)\<close>

definition getSchemaType :: "json \<Rightarrow> json" where
  "getSchemaType schema =
     (if \<not> truthy schema then JStr ''string''
      else if truthy (get_prop schema ''type'') then get_prop schema ''type''
      else if truthy (get_prop schema ''properties'') then JStr ''object''
      else if truthy (get_prop schema ''items'') then JStr ''array''
      else JStr ''string'')"

text \<open>
  \<open>generateExampleFromSchema\<close> recurses into \<open>schema.items\<close> and into the entries of
  \<open>schema.properties\<close>; both are parts of the schema, which the next lemmas measure.
\<close>

lemma array_index_properties [simp]: "array_index ''properties'' = None"
  by (simp add: array_index_def is_digit_def)

lemma array_index_items [simp]: "array_index ''items'' = None"
  by (simp add: array_index_def is_digit_def)

lemma size_map_of: "map_of kvs k = Some v \<Longrightarrow> size v < size (JObj kvs)"
  by (induction kvs) (auto split: if_splits)

lemma size_get_prop_properties:
  "truthy (get_prop s ''properties'') \<Longrightarrow> size (get_prop s ''properties'') < size s"
  by (cases s) (auto split: option.splits dest: size_map_of)

lemma size_get_prop_items:
  "truthy (get_prop s ''items'') \<Longrightarrow> size (get_prop s ''items'') < size s"
  by (cases s) (auto split: option.splits dest: size_map_of)

lemma size_object_entries:
  "(k, v) \<in> set (object_entries p) \<Longrightarrow> size v \<le> size p"
proof (cases p)
  case (JArr xs)
  assume "(k, v) \<in> set (object_entries p)"
  with JArr have "v \<in> set xs" by (auto dest: set_zip_rightD)
  then have "size v \<le> size_list size xs" by (induction xs) auto
  with JArr show ?thesis by simp
next
  case (JObj kvs)
  assume "(k, v) \<in> set (object_entries p)"
  with JObj have "(k, v) \<in> set kvs" by simp
  then have "size v \<le> size_list (size_prod (\<lambda>x. 0) size) kvs" by (induction kvs) auto
  with JObj show ?thesis by simp
next
  case (JStr s)
  assume "(k, v) \<in> set (object_entries p)"
  with JStr have "v \<in> set (map (\<lambda>c. JStr [c]) s)" by (auto dest: set_zip_rightD)
  then show ?thesis by auto
qed auto

function generateExampleFromSchema :: "json \<Rightarrow> json" where
  "generateExampleFromSchema schema =
     (if \<not> truthy schema then JUndef
      else let type = getSchemaType schema in
        if type = JStr ''string'' then
          js_or (js_or (get_prop schema ''example'') (get_prop schema ''default'')) (JStr ''string'')
        else if type = JStr ''number'' then
          js_or (js_or (get_prop schema ''example'') (get_prop schema ''default'')) (JNum 0)
        else if type = JStr ''integer'' then
          js_or (js_or (get_prop schema ''example'') (get_prop schema ''default'')) (JNum 0)
        else if type = JStr ''boolean'' then
          js_or (js_or (get_prop schema ''example'') (get_prop schema ''default'')) (JBool False)
        else if type = JStr ''array'' then
          (if truthy (get_prop schema ''items'')
           then JArr [generateExampleFromSchema (get_prop schema ''items'')]
           else JArr [])
        else if type = JStr ''object'' then
          (if truthy (get_prop schema ''properties'')
           then JObj (stored_entries
                        (map (\<lambda>(key, prop). (key, generateExampleFromSchema prop))
                           (object_entries (get_prop schema ''properties''))))
           else JObj [])
        else JUndef)"
  by pat_completeness auto
termination
proof (relation "measure size")
  show "wf (measure size)" by simp
next
  fix schema :: json and x
  assume "\<not> \<not> truthy schema" "x = getSchemaType schema" "truthy (get_prop schema ''items'')"
  then show "(get_prop schema ''items'', schema) \<in> measure size"
    by (simp add: size_get_prop_items)
next
  fix schema :: json and x xa xb y
  assume a: "truthy (get_prop schema ''properties'')"
    "xb \<in> set (object_entries (get_prop schema ''properties''))" "(xa, y) = xb"
  then have "size y \<le> size (get_prop schema ''properties'')"
    using size_object_entries by metis
  with a size_get_prop_properties [of schema] show "(y, schema) \<in> measure size"
    by simp
qed

declare generateExampleFromSchema.simps [simp del]

text \<open>
  \<open>String.prototype.replace\<close> with a string pattern (the first occurrence only) and
  \<open>String.prototype.split\<close> on a one-character separator.
\<close>

fun replace_first :: "string \<Rightarrow> string \<Rightarrow> string \<Rightarrow> string" where
  "replace_first pat rep [] = (if pat = [] then rep else [])"
| "replace_first pat rep (c # cs) =
     (if take (length pat) (c # cs) = pat then rep @ drop (length pat) (c # cs)
      else c # replace_first pat rep cs)"

fun split_on :: "char \<Rightarrow> string \<Rightarrow> string list" where
  "split_on d [] = [[]]"
| "split_on d (c # cs) =
     (if c = d then [] # split_on d cs
      else case split_on d cs of
             w # ws \<Rightarrow> (c # w) # ws
           | [] \<Rightarrow> [[c]])"

text \<open>
  The loop over the segments of a reference path: it stops with \<open>Missing\<close> at the first
  segment whose read is falsy, and throws when the value read from is \<open>null\<close> or
  \<open>undefined\<close> (only the root can be: every later value was truthy).
\<close>

datatype 'a lookup = Missing | Found 'a

fun follow_path :: "json \<Rightarrow> string list \<Rightarrow> js_error + json lookup" where
  "follow_path resolved [] = Inr (Found resolved)"
| "follow_path resolved (segment # rest) =
     (if nullish resolved then Inl TypeError
      else if truthy (get_prop resolved segment)
        then follow_path (get_prop resolved segment) rest
      else Inr Missing)"

text \<open>
  The source has no cycle detection, so reference resolution need not return. The model
  counts the nesting of calls: \<open>None\<close> is "no result within this many nested calls",
  \<open>Some (Inl e)\<close> a thrown error, \<open>Some (Inr v)\<close> the returned value.
\<close>

type_synonym 'a outcome = "(js_error + 'a) option"

fun traverse :: "('a \<Rightarrow> 'b outcome) \<Rightarrow> 'a list \<Rightarrow> 'b list outcome" where
  "traverse f [] = Some (Inr [])"
| "traverse f (x # xs) =
     (case f x of
        None \<Rightarrow> None
      | Some (Inl e) \<Rightarrow> Some (Inl e)
      | Some (Inr y) \<Rightarrow>
          (case traverse f xs of
             None \<Rightarrow> None
           | Some (Inl e) \<Rightarrow> Some (Inl e)
           | Some (Inr ys) \<Rightarrow> Some (Inr (y # ys))))"

definition map_outcome :: "('a \<Rightarrow> 'b) \<Rightarrow> 'a outcome \<Rightarrow> 'b outcome" where
  "map_outcome g r = map_option (map_sum id g) r"

text \<open>\<open>typeof v === "object"\<close> and \<open>Array.isArray(v)\<close>.\<close>

definition is_object :: "json \<Rightarrow> bool" where
  "is_object v = (case v of JArr xs \<Rightarrow> True | JObj kvs \<Rightarrow> True | JNull \<Rightarrow> True | _ \<Rightarrow> False)"

definition is_array :: "json \<Rightarrow> bool" where
  "is_array v = (case v of JArr xs \<Rightarrow> True | _ \<Rightarrow> False)"

fun resolveSchemaReferences :: "nat \<Rightarrow> json \<Rightarrow> json \<Rightarrow> json outcome" where
  "resolveSchemaReferences 0 schema rootSchema = None"
| "resolveSchemaReferences (Suc n) schema rootSchema =
     (if \<not> truthy schema then Some (Inr schema)
      else if is_object schema then
        (if truthy (get_prop schema ''$ref'') then
           (case get_prop schema ''$ref'' of
              JStr ref \<Rightarrow>
                (case follow_path rootSchema (split_on CHR ''/'' (replace_first ''#/'' [] ref)) of
                   Inl e \<Rightarrow> Some (Inl e)
                 | Inr Missing \<Rightarrow> Some (Inr schema)
                 | Inr (Found resolved) \<Rightarrow> resolveSchemaReferences n resolved rootSchema)
            | _ \<Rightarrow> Some (Inl TypeError))
         else if is_array schema then
           map_outcome JArr
             (traverse (\<lambda>value. resolveSchemaReferences n value rootSchema)
                (map snd (object_entries schema)))
         else
           map_outcome (\<lambda>entries. JObj (stored_entries entries))
             (traverse (\<lambda>(key, value).
                  map_outcome (Pair key) (resolveSchemaReferences n value rootSchema))
                (object_entries schema)))
      else Some (Inr schema))"

declare resolveSchemaReferences.simps(2) [simp del]

section \<open>Routes and plugin options (types.ts)\<close>

record Route =
  methods :: "string list"
  url :: string
  name :: string
  summary :: "string option"
  description :: "string option"
  tags :: "string list option"
  headers :: json
  querystring :: json
  body :: json
  params :: json
  response :: json

text \<open>
  The options the services read. An optional flag is \<open>None\<close> when it is left out; the
  custom predicate returns \<open>boolean | undefined\<close>.
\<close>

record McpPluginOptions =
  describeFullSchema :: "bool option"
  skipHeadRoutes :: "bool option"
  skipOptionsRoutes :: "bool option"
  filter_fn :: "(Route \<Rightarrow> bool option) option"

definition flag_on :: "bool option \<Rightarrow> bool" where
  "flag_on b = (b = Some True)"

section \<open>Route filter (unnamed/part_001)\<close>

definition keep_route :: "McpPluginOptions \<Rightarrow> Route \<Rightarrow> bool" where
  "keep_route options route =
     (if flag_on (skipHeadRoutes options) \<and> ''HEAD'' \<in> set (methods route) then False
      else if flag_on (skipOptionsRoutes options) \<and> ''OPTIONS'' \<in> set (methods route) then False
      else case filter_fn options of
             Some f \<Rightarrow> (if \<not> flag_on (f route) then False else True)
           | None \<Rightarrow> True)"

definition filterRoutes :: "McpPluginOptions \<Rightarrow> Route list \<Rightarrow> Route list" where
  "filterRoutes options routes = filter (keep_route options) routes"

text \<open>The three drop rules as the specification words them.\<close>

definition dropped_by_head :: "McpPluginOptions \<Rightarrow> Route \<Rightarrow> bool" where
  "dropped_by_head options route =
     (skipHeadRoutes options = Some True \<and> ''HEAD'' \<in> set (methods route))"

definition dropped_by_options :: "McpPluginOptions \<Rightarrow> Route \<Rightarrow> bool" where
  "dropped_by_options options route =
     (skipOptionsRoutes options = Some True \<and> ''OPTIONS'' \<in> set (methods route))"

definition dropped_by_predicate :: "McpPluginOptions \<Rightarrow> Route \<Rightarrow> bool" where
  "dropped_by_predicate options route =
     (\<exists>f. filter_fn options = Some f \<and> f route \<noteq> Some True)"

section \<open>Tool converter (services/tool-converter.ts)\<close>

record InputSchema =
  schema_type :: string
  properties :: "(string \<times> json) list"
  required :: "string list option"
  title :: string

record McpTool =
  tool_name :: string
  tool_description :: string
  inputSchema :: InputSchema

definition newline :: char where
  "newline = CHR 0x0A"

definition fence :: string where
  "fence = replicate 3 (CHR 0x60)"

text \<open>\<open>Array.prototype.join\<close> on an array of strings.\<close>

fun join :: "string \<Rightarrow> string list \<Rightarrow> string" where
  "join sep [] = []"
| "join sep [x] = x"
| "join sep (x # y # zs) = x @ sep @ join sep (y # zs)"

text \<open>
  \<open>JSON.stringify(v, null, 2)\<close> is the platform's; the converter takes it as the
  parameter \<open>stringify\<close>. It is only ever applied to truthy values, where it returns a
  string.
\<close>

definition asMDJson :: "(json \<Rightarrow> string) \<Rightarrow> json \<Rightarrow> string" where
  "asMDJson stringify obj = fence @ ''json'' @ [newline] @ stringify obj @ [newline] @ fence"

definition buildToolName :: "Route \<Rightarrow> string" where
  "buildToolName route = name route"

text \<open>\<open>.filter(Boolean)\<close> on an array of \<open>string | undefined\<close>.\<close>

definition filter_Boolean :: "string option list \<Rightarrow> string list" where
  "filter_Boolean parts =
     List.map_filter (\<lambda>p. case p of Some s \<Rightarrow> if s \<noteq> [] then Some s else None | None \<Rightarrow> None) parts"

definition has_tags :: "Route \<Rightarrow> bool" where
  "has_tags route = (case tags route of Some ts \<Rightarrow> length ts > 0 | None \<Rightarrow> False)"

definition tags_line :: "Route \<Rightarrow> string" where
  "tags_line route = ''Tags: '' @ join '', '' (case tags route of Some ts \<Rightarrow> ts | None \<Rightarrow> [])"

definition buildToolDescription :: "(json \<Rightarrow> string) \<Rightarrow> McpPluginOptions \<Rightarrow> Route \<Rightarrow> string" where
  "buildToolDescription stringify options route =
     (let d0 = [summary route, description route];
          d1 = (if has_tags route then d0 @ [Some (tags_line route)] else d0);
          d2 = (if truthy (response route) \<and> flag_on (describeFullSchema options) then
                  (let d = d1 @ [Some ''### Response:''];
                       example = generateExampleFromSchema (response route);
                       d' = (if truthy example
                             then d @ [Some (''**Example Response:**'' @ [newline]
                                         @ asMDJson stringify example)]
                             else d)
                   in if flag_on (describeFullSchema options)
                      then d' @ [Some (''**Output Schema:**'' @ asMDJson stringify (response route))]
                      else d')
                else d1);
          joined = join [newline, newline] (filter_Boolean d2)
      in if joined \<noteq> [] then joined else name route)"

text \<open>\<open>(group.required || []).includes(key)\<close>: an array test, a substring test on a
  string, and a thrown \<open>TypeError\<close> on any other truthy value.\<close>

fun is_substring :: "string \<Rightarrow> string \<Rightarrow> bool" where
  "is_substring k [] = (k = [])"
| "is_substring k (c # cs) = (take (length k) (c # cs) = k \<or> is_substring k cs)"

definition includes_key :: "json \<Rightarrow> string \<Rightarrow> js_error + bool" where
  "includes_key req key =
     (if \<not> truthy req then Inr False
      else case req of
             JArr xs \<Rightarrow> Inr (JStr key \<in> set xs)
           | JStr s \<Rightarrow> Inr (is_substring key s)
           | _ \<Rightarrow> Inl TypeError)"

text \<open>The description each of the four loops gives a property.\<close>

definition header_description :: "string \<Rightarrow> json \<Rightarrow> js_error + json" where
  "header_description key schema =
     (if nullish schema then Inl TypeError
      else if nullish (get_prop schema ''description'') then Inr (JStr (''Header: '' @ key))
      else Inr (get_prop schema ''description''))"

definition fixed_description :: "string \<Rightarrow> string \<Rightarrow> json \<Rightarrow> js_error + json" where
  "fixed_description label key schema = Inr (JStr (label @ key))"

definition property_entry :: "string \<Rightarrow> json \<Rightarrow> json \<Rightarrow> json" where
  "property_entry key schema d =
     JObj [(''type'', getSchemaType schema), (''title'', JStr key), (''description'', d)]"

text \<open>
  The body shared by the four loops of \<open>buildToolInputSchema\<close>: one step writes
  \<open>properties[key]\<close> and pushes the key when the group requires it; a loop runs over
  \<open>Object.entries(group.properties || {})\<close> when the group is truthy.
\<close>

fun add_property ::
  "(string \<Rightarrow> json \<Rightarrow> js_error + json) \<Rightarrow> json \<Rightarrow>
   (string \<times> json) list \<times> string list \<Rightarrow> string \<times> json \<Rightarrow>
   js_error + (string \<times> json) list \<times> string list" where
  "add_property describe grp (props, req) (key, schema) =
     (case describe key schema of
        Inl e \<Rightarrow> Inl e
      | Inr d \<Rightarrow>
          (case includes_key (get_prop grp ''required'') key of
             Inl e \<Rightarrow> Inl e
           | Inr b \<Rightarrow>
               Inr (obj_set props key (property_entry key schema d),
                    if b then req @ [key] else req)))"

fun fold_err :: "('s \<Rightarrow> 'a \<Rightarrow> js_error + 's) \<Rightarrow> 'a list \<Rightarrow> 's \<Rightarrow> js_error + 's" where
  "fold_err f [] acc = Inr acc"
| "fold_err f (x # xs) acc =
     (case f acc x of Inl e \<Rightarrow> Inl e | Inr acc' \<Rightarrow> fold_err f xs acc')"

definition group_entries :: "json \<Rightarrow> (string \<times> json) list" where
  "group_entries grp =
     (if truthy grp then object_entries (js_or (get_prop grp ''properties'') (JObj []))
      else [])"

definition add_group ::
  "(string \<Rightarrow> json \<Rightarrow> js_error + json) \<Rightarrow> json \<Rightarrow>
   (string \<times> json) list \<times> string list \<Rightarrow>
   js_error + (string \<times> json) list \<times> string list" where
  "add_group describe grp acc = fold_err (add_property describe grp) (group_entries grp) acc"

definition bind_err :: "js_error + 'a \<Rightarrow> ('a \<Rightarrow> js_error + 'b) \<Rightarrow> js_error + 'b" where
  "bind_err r f = (case r of Inl e \<Rightarrow> Inl e | Inr x \<Rightarrow> f x)"

definition buildToolInputSchema :: "Route \<Rightarrow> js_error + InputSchema" where
  "buildToolInputSchema route =
     bind_err (add_group header_description (headers route) ([], [])) (\<lambda>a1.
     bind_err (add_group (fixed_description ''Path parameter: '') (params route) a1) (\<lambda>a2.
     bind_err (add_group (fixed_description ''Query parameter: '') (querystring route) a2) (\<lambda>a3.
     bind_err (add_group (fixed_description ''Body parameter: '') (body route) a3) (\<lambda>a4.
       Inr \<lparr>schema_type = ''object'',
            properties = fst a4,
            required = (if length (snd a4) > 0 then Some (snd a4) else None),
            title = name route @ ''Parameters''\<rparr>))))"

definition convertRouteToTool ::
  "(json \<Rightarrow> string) \<Rightarrow> McpPluginOptions \<Rightarrow> Route \<Rightarrow> js_error + McpTool" where
  "convertRouteToTool stringify options route =
     bind_err (buildToolInputSchema route) (\<lambda>schema.
       Inr \<lparr>tool_name = buildToolName route,
            tool_description = buildToolDescription stringify options route,
            inputSchema = schema\<rparr>)"

section \<open>The second tool converter (unnamed/part_000)\<close>

text \<open>
  This file builds the description by \<open>+=\<close> on a variable that starts as
  \<open>route.summary\<close>: appending to \<open>undefined\<close> yields a string that starts with
  \<open>undefined\<close>. Its name and input-schema functions have the text of the first file.
\<close>

definition append_to :: "string option \<Rightarrow> string \<Rightarrow> string option" where
  "append_to d s = Some ((case d of Some t \<Rightarrow> t | None \<Rightarrow> ''undefined'') @ s)"

definition str_truthy :: "string option \<Rightarrow> bool" where
  "str_truthy d = (case d of Some s \<Rightarrow> s \<noteq> [] | None \<Rightarrow> False)"

definition buildToolName_b :: "Route \<Rightarrow> string" where
  "buildToolName_b route = name route"

definition buildToolDescription_b ::
  "(json \<Rightarrow> string) \<Rightarrow> McpPluginOptions \<Rightarrow> Route \<Rightarrow> string" where
  "buildToolDescription_b stringify options route =
     (let d0 = summary route;
          d1 = (if str_truthy (description route)
                then append_to d0 ([newline, newline] @ the (description route)) else d0);
          d2 = (if has_tags route
                then append_to d1 ([newline, newline] @ tags_line route) else d1);
          d3 = (if truthy (response route) \<and> flag_on (describeFullSchema options) then
                  (let d = append_to d2 ([newline, newline] @ ''### Response:'');
                       example = generateExampleFromSchema (response route);
                       d' = (if truthy example
                             then append_to (append_to (append_to d
                                    ([newline, newline] @ ''**Example Response:**'' @ [newline]
                                       @ fence @ ''json'' @ [newline]))
                                    (stringify example))
                                    ([newline] @ fence)
                             else d)
                   in if flag_on (describeFullSchema options)
                      then append_to (append_to (append_to d'
                             ([newline, newline] @ ''**Output Schema:**'' @ [newline]
                                @ fence @ ''json'' @ [newline]))
                             (stringify (response route)))
                             ([newline] @ fence)
                      else d')
                else d2)
      in if str_truthy d3 then the d3 else name route)"

definition buildToolInputSchema_b :: "Route \<Rightarrow> js_error + InputSchema" where
  "buildToolInputSchema_b route =
     bind_err (add_group header_description (headers route) ([], [])) (\<lambda>a1.
     bind_err (add_group (fixed_description ''Path parameter: '') (params route) a1) (\<lambda>a2.
     bind_err (add_group (fixed_description ''Query parameter: '') (querystring route) a2) (\<lambda>a3.
     bind_err (add_group (fixed_description ''Body parameter: '') (body route) a3) (\<lambda>a4.
       Inr \<lparr>schema_type = ''object'',
            properties = fst a4,
            required = (if length (snd a4) > 0 then Some (snd a4) else None),
            title = name route @ ''Parameters''\<rparr>))))"

definition convertRouteToTool_b ::
  "(json \<Rightarrow> string) \<Rightarrow> McpPluginOptions \<Rightarrow> Route \<Rightarrow> js_error + McpTool" where
  "convertRouteToTool_b stringify options route =
     bind_err (buildToolInputSchema_b route) (\<lambda>schema.
       Inr \<lparr>tool_name = buildToolName_b route,
            tool_description = buildToolDescription_b stringify options route,
            inputSchema = schema\<rparr>)"

section \<open>Request handler (unnamed/part_002)\<close>






section \<open>Plugin (index.ts, carried in test/setup.ts)\<close>

subsection \<open>Route registration: the onRoute hook\<close>

datatype method_spec = OneMethod string | MethodList "string list"

record McpConfig =
  hidden :: "bool option"
  mcp_name :: "string option"
  mcp_description :: "string option"

text \<open>
  What the hook reads of Fastify's \<open>RouteOptions\<close>: \<open>config_mcp\<close> is
  \<open>routeOptions.config?.mcp\<close> (\<open>None\<close> when \<open>config\<close> or \<open>mcp\<close> is left out) and
  \<open>route_schema\<close> is \<open>routeOptions.schema\<close> (\<open>JUndef\<close> when left out).
\<close>

record RouteOptions =
  route_method :: method_spec
  route_url :: string
  config_mcp :: "McpConfig option"
  route_schema :: json

text \<open>
  The source reads \<open>operationId\<close>, \<open>summary\<close> and \<open>description\<close> under the unchecked
  cast \<open>as string\<close>, and the tags into a \<open>string[]\<close>. The model follows the declared
  type: a value that is not a string is read as left out.
\<close>

definition as_string :: "json \<Rightarrow> string option" where
  "as_string v = (case v of JStr s \<Rightarrow> Some s | _ \<Rightarrow> None)"

definition str_or :: "string option \<Rightarrow> string option \<Rightarrow> string option" where
  "str_or a b = (if str_truthy a then a else b)"

definition valid_methods :: "string list" where
  "valid_methods = [''DELETE'', ''GET'', ''HEAD'', ''PATCH'', ''POST'', ''PUT'', ''OPTIONS'']"

text \<open>A method array inside a template literal is its elements joined by commas.\<close>

definition method_text :: "method_spec \<Rightarrow> string" where
  "method_text m = (case m of OneMethod s \<Rightarrow> s | MethodList ms \<Rightarrow> join '','' ms)"

definition replace_separators :: "string \<Rightarrow> string" where
  "replace_separators u = map (\<lambda>c. if c \<in> set ''/:{}'' then CHR ''_'' else c) u"

definition generated_name :: "RouteOptions \<Rightarrow> string" where
  "generated_name ro = method_text (route_method ro) @ ''_'' @ replace_separators (route_url ro)"

definition config_name :: "RouteOptions \<Rightarrow> string option" where
  "config_name ro = (case config_mcp ro of Some c \<Rightarrow> mcp_name c | None \<Rightarrow> None)"

definition config_description :: "RouteOptions \<Rightarrow> string option" where
  "config_description ro = (case config_mcp ro of Some c \<Rightarrow> mcp_description c | None \<Rightarrow> None)"

definition is_hidden :: "RouteOptions \<Rightarrow> bool" where
  "is_hidden ro = (case config_mcp ro of Some c \<Rightarrow> flag_on (hidden c) | None \<Rightarrow> False)"

definition route_name :: "RouteOptions \<Rightarrow> string" where
  "route_name ro =
     (case str_or (str_or (config_name ro)
                     (as_string (opt_prop (route_schema ro) ''operationId'')))
                  (Some (generated_name ro)) of
        Some n \<Rightarrow> n
      | None \<Rightarrow> generated_name ro)"

definition route_tags :: "RouteOptions \<Rightarrow> string list" where
  "route_tags ro =
     (case js_or (opt_prop (route_schema ro) ''tags'') (JArr []) of
        JArr xs \<Rightarrow> List.map_filter as_string xs
      | _ \<Rightarrow> [])"

definition method_list :: "RouteOptions \<Rightarrow> string list" where
  "method_list ro = (case route_method ro of OneMethod s \<Rightarrow> [s] | MethodList ms \<Rightarrow> ms)"

definition route_methods :: "RouteOptions \<Rightarrow> string list" where
  "route_methods ro = filter (\<lambda>m. m \<in> set valid_methods) (method_list ro)"

definition bind_outcome :: "'a outcome \<Rightarrow> ('a \<Rightarrow> 'b outcome) \<Rightarrow> 'b outcome" where
  "bind_outcome r f =
     (case r of None \<Rightarrow> None | Some (Inl e) \<Rightarrow> Some (Inl e) | Some (Inr x) \<Rightarrow> f x)"

text \<open>
  The hook on the registry \<open>routes\<close>. The four schema fragments are resolved in the
  order the object literal lists them; a resolution that throws or does not return
  leaves the hook without a result. The hook of this file sets no \<open>headers\<close> field.
\<close>

definition onRoute :: "nat \<Rightarrow> Route list \<Rightarrow> RouteOptions \<Rightarrow> Route list outcome" where
  "onRoute fuel routes ro =
     (if is_hidden ro then Some (Inr routes)
      else if length (route_methods ro) = 0 then Some (Inr routes)
      else
        bind_outcome (resolveSchemaReferences fuel
            (opt_prop (route_schema ro) ''querystring'') (route_schema ro)) (\<lambda>q.
        bind_outcome (resolveSchemaReferences fuel
            (opt_prop (route_schema ro) ''body'') (route_schema ro)) (\<lambda>b.
        bind_outcome (resolveSchemaReferences fuel
            (opt_prop (route_schema ro) ''params'') (route_schema ro)) (\<lambda>p.
        bind_outcome (resolveSchemaReferences fuel
            (js_or (opt_prop (opt_prop (route_schema ro) ''response'') ''200'')
                   (opt_prop (opt_prop (route_schema ro) ''response'') ''2xx''))
            (route_schema ro)) (\<lambda>r.
          Some (Inr (routes @
            [\<lparr>methods = route_methods ro,
              url = route_url ro,
              name = route_name ro,
              summary = as_string (opt_prop (route_schema ro) ''summary''),
              description = str_or (config_description ro)
                              (as_string (opt_prop (route_schema ro) ''description'')),
              tags = Some (route_tags ro),
              headers = JUndef,
              querystring = q,
              body = b,
              params = p,
              response = r\<rparr>])))))))"

text \<open>The hook fired once per registered route, in registration order.\<close>

fun register_all :: "nat \<Rightarrow> Route list \<Rightarrow> RouteOptions list \<Rightarrow> Route list outcome" where
  "register_all fuel routes [] = Some (Inr routes)"
| "register_all fuel routes (ro # ros) =
     bind_outcome (onRoute fuel routes ro) (\<lambda>routes'. register_all fuel routes' ros)"

subsection \<open>The ListTools handler\<close>

fun map_err :: "('a \<Rightarrow> js_error + 'b) \<Rightarrow> 'a list \<Rightarrow> js_error + 'b list" where
  "map_err f [] = Inr []"
| "map_err f (x # xs) =
     bind_err (f x) (\<lambda>y. bind_err (map_err f xs) (\<lambda>ys. Inr (y # ys)))"

definition list_tools ::
  "(json \<Rightarrow> string) \<Rightarrow> McpPluginOptions \<Rightarrow> Route list \<Rightarrow> js_error + McpTool list" where
  "list_tools stringify options routes =
     map_err (convertRouteToTool stringify options) (filterRoutes options routes)"

subsection \<open>Sessions: the SSE endpoint and the messages endpoint\<close>

text \<open>
  \<open>activeTransports\<close> is a \<open>Map\<close> from session identifier to transport. A connection
  stores its transport under the identifier the transport carries; the close handler of
  the connection deletes that identifier. The transport's \<open>handlePostMessage\<close> is the
  SDK's: the parameter \<open>handle\<close> gives its outcome, \<open>Inl\<close> when it throws and \<open>Inr\<close>
  with the reply it wrote itself otherwise.
\<close>

type_synonym 't transports = "string \<rightharpoonup> 't"

datatype ('t, 'b) sse_event =
    Connect string 't
  | Close string
  | Message string 'b

datatype 'r reply = Reply nat json | ByTransport 'r

definition sse_connect :: "'t transports \<Rightarrow> string \<Rightarrow> 't \<Rightarrow> 't transports" where
  "sse_connect active sessionId transport = active(sessionId \<mapsto> transport)"

definition sse_close :: "'t transports \<Rightarrow> string \<Rightarrow> 't transports" where
  "sse_close active sessionId = active(sessionId := None)"

definition post_message ::
  "('t \<Rightarrow> 'b \<Rightarrow> 'e + 'r) \<Rightarrow> 't transports \<Rightarrow> string \<Rightarrow> 'b \<Rightarrow> 'r reply" where
  "post_message handle active sessionId msg =
     (case active sessionId of
        None \<Rightarrow> Reply 404 (JObj [(''error'', JStr ''Session not found'')])
      | Some transport \<Rightarrow>
          (case handle transport msg of
             Inl e \<Rightarrow> Reply 500 (JObj [(''error'', JStr ''Internal server error'')])
           | Inr r \<Rightarrow> ByTransport r))"

fun sse_step :: "'t transports \<Rightarrow> ('t, 'b) sse_event \<Rightarrow> 't transports" where
  "sse_step active (Connect sessionId transport) = sse_connect active sessionId transport"
| "sse_step active (Close sessionId) = sse_close active sessionId"
| "sse_step active (Message sessionId msg) = active"

definition sse_run :: "'t transports \<Rightarrow> ('t, 'b) sse_event list \<Rightarrow> 't transports" where
  "sse_run active events = foldl sse_step active events"

fun opens :: "string \<Rightarrow> ('t, 'b) sse_event \<Rightarrow> bool" where
  "opens sid (Connect sessionId transport) = (sessionId = sid)"
| "opens sid (Close sessionId) = False"
| "opens sid (Message sessionId msg) = False"

section \<open>Notions the properties are stated with\<close>

text \<open>The registry invariant: a route has a method, and only methods of the vocabulary.\<close>

definition valid_route :: "Route \<Rightarrow> bool" where
  "valid_route r = (methods r \<noteq> [] \<and> set (methods r) \<subseteq> set valid_methods)"







text \<open>
  When the build returns: the \<open>required\<close> field of every group is falsy, an array or a
  string, and no header property has \<open>null\<close> or \<open>undefined\<close> for its schema.
\<close>

definition required_ok :: "json \<Rightarrow> bool" where
  "required_ok grp =
     (case get_prop grp ''required'' of
        JArr xs \<Rightarrow> True
      | JStr s \<Rightarrow> True
      | v \<Rightarrow> \<not> truthy v)"

text \<open>The placeholder example of a scalar type.\<close>

definition placeholder :: "string \<Rightarrow> json" where
  "placeholder t =
     (if t = ''string'' then JStr ''string''
      else if t = ''boolean'' then JBool False
      else JNum 0)"

section \<open>Sample inputs\<close>

text \<open>
  Route registrations: \<open>GET /hello\<close> of the test suite, a route with no method of the
  vocabulary, a hidden route, and a route whose override name is the empty string.
\<close>

definition get_hello :: RouteOptions where
  "get_hello = \<lparr>route_method = OneMethod ''GET'', route_url = ''/hello'',
     config_mcp = None, route_schema = JUndef\<rparr>"

definition trace_route :: RouteOptions where
  "trace_route = \<lparr>route_method = MethodList [''TRACE'', ''get''], route_url = ''/t'',
     config_mcp = None, route_schema = JUndef\<rparr>"

definition hidden_route :: RouteOptions where
  "hidden_route = \<lparr>route_method = OneMethod ''GET'', route_url = ''/secret'',
     config_mcp = Some \<lparr>hidden = Some True, mcp_name = None, mcp_description = None\<rparr>,
     route_schema = JUndef\<rparr>"

definition empty_name_route :: RouteOptions where
  "empty_name_route = \<lparr>route_method = OneMethod ''GET'', route_url = ''/hello'',
     config_mcp = Some \<lparr>hidden = None, mcp_name = Some [], mcp_description = None\<rparr>,
     route_schema = JObj [(''operationId'', JStr ''hello'')]\<rparr>"

text \<open>A transport handler that throws on \<open>null\<close>, and a run of session events.\<close>

definition sample_handle :: "nat \<Rightarrow> json \<Rightarrow> unit + nat" where
  "sample_handle transport msg = (if msg = JNull then Inl () else Inr 202)"

definition sample_events :: "(nat, json) sse_event list" where
  "sample_events = [Message ''s1'' (JNum 1), Connect ''s2'' 8, Close ''s2'', Close ''s1'']"








definition says_hello_route :: Route where
  "says_hello_route =
     \<lparr>methods = [''GET''], url = ''/hello'', name = ''hello'', summary = None,
      description = Some ''Says hello'', tags = Some [], headers = JUndef,
      querystring = JUndef, body = JUndef, params = JUndef, response = JUndef\<rparr>"

definition hello_world_route :: Route where
  "hello_world_route =
     \<lparr>methods = [''GET''], url = ''/hello'', name = ''hello'', summary = Some ''Hello World'',
      description = Some ''Says hello'', tags = Some [], headers = JUndef,
      querystring = JUndef, body = JUndef, params = JUndef, response = JUndef\<rparr>"

definition default_options :: McpPluginOptions where
  "default_options =
     \<lparr>describeFullSchema = Some False, skipHeadRoutes = Some True,
      skipOptionsRoutes = Some True, filter_fn = None\<rparr>"

text \<open>A stand-in for \<open>JSON.stringify\<close> where no response block is written.\<close>

definition stub_stringify :: "json \<Rightarrow> string" where
  "stub_stringify v = []"

text \<open>Schemas for example synthesis.\<close>

definition flag_schema :: json where
  "flag_schema = JObj [(''type'', JStr ''boolean''), (''example'', JBool False),
     (''default'', JBool True)]"

definition count_schema :: json where
  "count_schema = JObj [(''type'', JStr ''integer''), (''example'', JNum 0),
     (''default'', JNum 7)]"

definition list_schema :: json where
  "list_schema = JObj [(''type'', JStr ''array''),
     (''items'', JObj [(''type'', JStr ''integer''), (''example'', JNum 3)])]"

section \<open>Building an object entry by entry\<close>

text \<open>
  The loops \<open>for (const [key, value] of Object.entries(o)) result[key] = f(value)\<close> of
  \<open>resolveSchemaReferences\<close> and \<open>generateExampleFromSchema\<close> are written above as a
  map over the entries. For the pairwise distinct keys of an object that is what the loop
  of assignments computes.
\<close>

lemma put_entry_append_new:
  "k \<notin> fst ` set acc \<Longrightarrow> put_entry acc k v = acc @ [(k, v)]"
  by (induction acc) auto

lemma obj_set_cases:
  "obj_set acc ''__proto__'' v = acc"
  "k \<noteq> ''__proto__'' \<Longrightarrow> obj_set acc k v = put_entry acc k v"
  by (simp_all add: obj_set_def)

lemma stored_entries_simps [simp]:
  "stored_entries [] = []"
  "stored_entries ((k, v) # es) =
     (if k = ''__proto__'' then stored_entries es else (k, v) # stored_entries es)"
  by (simp_all add: stored_entries_def)

lemma fold_obj_set_distinct:
  "distinct (map fst kvs) \<Longrightarrow> fst ` set kvs \<inter> fst ` set acc = {} \<Longrightarrow>
   fold (\<lambda>(k, v) obj. obj_set obj k (f v)) kvs acc
     = acc @ stored_entries (map (\<lambda>(k, v). (k, f v)) kvs)"
proof (induction kvs arbitrary: acc)
  case Nil
  then show ?case by simp
next
  case (Cons a kvs)
  obtain k v where a: "a = (k, v)" by (cases a)
  from Cons.prems a have new: "k \<notin> fst ` set acc" by auto
  from Cons.prems a have d: "distinct (map fst kvs)" by simp
  show ?case
  proof (cases "k = ''__proto__''")
    case True
    from Cons.prems a have "fst ` set kvs \<inter> fst ` set acc = {}" by auto
    from Cons.IH [OF d this] True show ?thesis
      by (simp add: a obj_set_cases)
  next
    case False
    from Cons.prems a have "fst ` set kvs \<inter> fst ` set (acc @ [(k, f v)]) = {}" by auto
    from Cons.IH [OF d this] new False show ?thesis
      by (simp add: a obj_set_cases put_entry_append_new)
  qed
qed

section \<open>Properties of the route filter\<close>

lemma keep_route_iff:
  "keep_route options route \<longleftrightarrow>
     \<not> dropped_by_head options route \<and> \<not> dropped_by_options options route
     \<and> \<not> dropped_by_predicate options route"
  by (auto simp: keep_route_def dropped_by_head_def dropped_by_options_def
      dropped_by_predicate_def flag_on_def split: option.splits)

text \<open>
  Claim C8. \<open>filterRoutes\<close> is a function of the option record and the route list alone.
  A route of the input survives exactly when none of the three rules drops it: HEAD
  among its methods with \<open>skipHeadRoutes\<close> on, OPTIONS among its methods with
  \<open>skipOptionsRoutes\<close> on, or a configured predicate answering anything but \<open>true\<close>.
  The result is the input with the dropped routes left out: a subsequence of the input,
  so the survivors keep their relative order, and the input list itself is returned
  unchanged to the caller because the function only reads it.
\<close>

theorem filterRoutes_spec:
  "set (filterRoutes options routes) =
     {r \<in> set routes. \<not> dropped_by_head options r \<and> \<not> dropped_by_options options r
        \<and> \<not> dropped_by_predicate options r}
   \<and> subseq (filterRoutes options routes) routes
   \<and> filterRoutes options routes =
       [r \<leftarrow> routes. \<not> (dropped_by_head options r \<or> dropped_by_options options r
          \<or> dropped_by_predicate options r)]"
proof -
  have k: "keep_route options = (\<lambda>r. \<not> (dropped_by_head options r
      \<or> dropped_by_options options r \<or> dropped_by_predicate options r))"
    by (rule ext) (simp add: keep_route_iff)
  have "filterRoutes options routes = filter (keep_route options) routes"
    by (simp add: filterRoutes_def)
  then show ?thesis
    unfolding k by auto
qed

section \<open>Properties of reference resolution\<close>

lemma traverse_fixed:
  "\<forall>x \<in> set xs. f x = Some (Inr x) \<Longrightarrow> traverse f xs = Some (Inr xs)"
  by (induction xs) auto

lemma traverse_mono:
  assumes "\<And>x y. x \<in> set xs \<Longrightarrow> f x = Some y \<Longrightarrow> g x = Some y"
  shows "traverse f xs = Some r \<Longrightarrow> traverse g xs = Some r"
  using assms
proof (induction xs arbitrary: r)
  case Nil
  then show ?case by simp
next
  case (Cons x xs)
  then show ?case
    by (auto split: option.splits sum.splits) (force+)?
qed




lemma map_outcome_simps [simp]:
  "map_outcome g None = None"
  "map_outcome g (Some (Inl e)) = Some (Inl e)"
  "map_outcome g (Some (Inr x)) = Some (Inr (g x))"
  by (simp_all add: map_outcome_def)

lemma map_outcome_eq_Some_Inr:
  "map_outcome g r = Some (Inr y) \<longleftrightarrow> (\<exists>x. r = Some (Inr x) \<and> y = g x)"
  by (cases r) (auto simp: map_outcome_def map_sum_def split: sum.splits)

lemma resolve_fuel_step:
  "resolveSchemaReferences n s root = Some r \<Longrightarrow> resolveSchemaReferences (Suc n) s root = Some r"
proof (induction n arbitrary: s r)
  case 0
  then show ?case by simp
next
  case (Suc n)
  have arr: "traverse (\<lambda>value. resolveSchemaReferences (Suc n) value root) xs = Some q"
    if "traverse (\<lambda>value. resolveSchemaReferences n value root) xs = Some q" for xs q
    using that by (rule traverse_mono [rotated]) (rule Suc.IH)
  have obj: "traverse (\<lambda>(key, value). map_outcome (Pair key)
        (resolveSchemaReferences (Suc n) value root)) kvs = Some q"
    if "traverse (\<lambda>(key, value). map_outcome (Pair key)
        (resolveSchemaReferences n value root)) kvs = Some q" for kvs q
    using that
  proof (rule traverse_mono [rotated])
    fix x y
    assume "(case x of (key, value) \<Rightarrow> map_outcome (Pair key)
        (resolveSchemaReferences n value root)) = Some y"
    then show "(case x of (key, value) \<Rightarrow> map_outcome (Pair key)
        (resolveSchemaReferences (Suc n) value root)) = Some y"
      by (cases x) (auto simp: map_outcome_def dest!: Suc.IH)
  qed
  from Suc.prems show ?case
    apply (subst resolveSchemaReferences.simps(2))
    apply (subst (asm) resolveSchemaReferences.simps(2))
    apply (auto split: if_splits json.splits sum.splits lookup.splits
        simp: map_outcome_def dest: Suc.IH arr obj [unfolded map_outcome_def])
    done
qed


lemma traverse_Inr_all2:
  "traverse f xs = Some (Inr ys) \<longleftrightarrow> list_all2 (\<lambda>x y. f x = Some (Inr y)) xs ys"
proof (induction xs arbitrary: ys)
  case Nil
  then show ?case by auto
next
  case (Cons x xs)
  show ?case
  proof (cases ys)
    case Nil
    then show ?thesis by (auto split: option.splits sum.splits)
  next
    case (Cons y ys')
    have "traverse f (x # xs) = Some (Inr (y # ys')) \<longleftrightarrow>
        f x = Some (Inr y) \<and> traverse f xs = Some (Inr ys')"
      by (auto split: option.splits sum.splits)
    then show ?thesis
      by (simp add: Cons Cons.IH [of ys'])
  qed
qed

lemma array_index_ref [simp]: "array_index ''$ref'' = None"
  by (simp add: array_index_def is_digit_def)

lemma resolve_falsy:
  "\<not> truthy c \<Longrightarrow> resolveSchemaReferences n c root = Some (Inr w) \<Longrightarrow> w = c"
  by (cases n) (simp_all add: resolveSchemaReferences.simps(2))

lemma map_of_all2:
  "list_all2 (\<lambda>(k, c) (k', w). k' = k \<and> R c w) kvs kvs' \<Longrightarrow>
   rel_option R (map_of kvs k) (map_of kvs' k)"
  by (induction kvs kvs' rule: list_all2_induct) auto

lemma snd_entries_JArr [simp]: "map snd (object_entries (JArr xs)) = xs"
  by (simp add: map_snd_zip)


lemma resolve_Suc_scalar:
  "\<not> truthy s \<or> \<not> is_object s \<Longrightarrow> resolveSchemaReferences (Suc n) s root = Some (Inr s)"
  by (auto simp: resolveSchemaReferences.simps(2))

lemma resolve_Suc_arr:
  "resolveSchemaReferences (Suc n) (JArr xs) root =
     map_outcome JArr (traverse (\<lambda>value. resolveSchemaReferences n value root) xs)"
  by (simp add: resolveSchemaReferences.simps(2) is_object_def is_array_def)

lemma resolve_Suc_obj:
  "\<not> truthy (get_prop (JObj kvs) ''$ref'') \<Longrightarrow>
   resolveSchemaReferences (Suc n) (JObj kvs) root =
     map_outcome (\<lambda>entries. JObj (stored_entries entries))
       (traverse (\<lambda>(key, value). map_outcome (Pair key)
          (resolveSchemaReferences n value root)) kvs)"
  by (simp add: resolveSchemaReferences.simps(2) is_object_def is_array_def)

lemma map_of_stored_entries:
  "k \<noteq> ''__proto__'' \<Longrightarrow> map_of (stored_entries es) k = map_of es k"
  by (induction es) auto

lemma stored_entries_idem: "stored_entries (stored_entries es) = stored_entries es"
  by (simp add: stored_entries_def)

lemma set_stored_entries: "set (stored_entries es) \<subseteq> set es"
  by (auto simp: stored_entries_def)

lemma resolve_Suc_ref:
  assumes "truthy (get_prop (JObj kvs) ''$ref'')"
    and "resolveSchemaReferences (Suc n) (JObj kvs) root = Some (Inr v)"
  shows "v = JObj kvs \<or> (\<exists>t. resolveSchemaReferences n t root = Some (Inr v))"
proof -
  have "resolveSchemaReferences (Suc n) (JObj kvs) root =
     (case get_prop (JObj kvs) ''$ref'' of
        JStr ref \<Rightarrow>
          (case follow_path root (split_on CHR ''/'' (replace_first ''#/'' [] ref)) of
             Inl e \<Rightarrow> Some (Inl e)
           | Inr Missing \<Rightarrow> Some (Inr (JObj kvs))
           | Inr (Found resolved) \<Rightarrow> resolveSchemaReferences n resolved root)
      | _ \<Rightarrow> Some (Inl TypeError))"
    using assms(1) by (simp only: resolveSchemaReferences.simps(2) is_object_def is_array_def
        json.case truthy.simps if_True if_False not_True_eq_False)
  with assms(2) show ?thesis
    by (cases "get_prop (JObj kvs) ''$ref''") (auto split: sum.splits lookup.splits)
qed


lemma resolve_idem:
  "resolveSchemaReferences n s root = Some (Inr v) \<Longrightarrow>
   resolveSchemaReferences n v root = Some (Inr v)"
proof (induction n arbitrary: s v)
  case 0
  then show ?case by simp
next
  case (Suc n)
  note run = Suc.prems
  have scalar: ?case if "\<not> truthy s \<or> \<not> is_object s"
  proof -
    from that run have "v = s" by (simp add: resolve_Suc_scalar)
    with run show ?thesis by simp
  qed
  show ?case
  proof (cases s)
    case (JArr xs)
    with run obtain ys where
      ys: "traverse (\<lambda>value. resolveSchemaReferences n value root) xs = Some (Inr ys)"
      and v: "v = JArr ys"
      by (auto simp: resolve_Suc_arr map_outcome_eq_Some_Inr)
    from ys have l2: "list_all2 (\<lambda>x y. resolveSchemaReferences n x root = Some (Inr y)) xs ys"
      by (simp add: traverse_Inr_all2)
    have "\<forall>y \<in> set ys. resolveSchemaReferences n y root = Some (Inr y)"
    proof
      fix y assume "y \<in> set ys"
      then obtain i where "i < length ys" "ys ! i = y"
        by (auto simp: in_set_conv_nth)
      with l2 have "resolveSchemaReferences n (xs ! i) root = Some (Inr y)"
        by (auto simp: list_all2_conv_all_nth)
      then show "resolveSchemaReferences n y root = Some (Inr y)" by (rule Suc.IH)
    qed
    then have "traverse (\<lambda>value. resolveSchemaReferences n value root) ys = Some (Inr ys)"
      by (rule traverse_fixed)
    then show ?thesis
      by (simp add: v resolve_Suc_arr)
  next
    case (JObj kvs)
    show ?thesis
    proof (cases "truthy (get_prop (JObj kvs) ''$ref'')")
      case True
      from resolve_Suc_ref [OF True run [unfolded JObj]]
      show ?thesis
      proof
        assume "v = JObj kvs"
        with run JObj show ?thesis by simp
      next
        assume "\<exists>t. resolveSchemaReferences n t root = Some (Inr v)"
        then obtain t where "resolveSchemaReferences n t root = Some (Inr v)" ..
        then have "resolveSchemaReferences n v root = Some (Inr v)" by (rule Suc.IH)
        then show ?thesis by (rule resolve_fuel_step)
      qed
    next
      case noref: False
      with run JObj obtain kvs' where
        tr: "traverse (\<lambda>(key, value). map_outcome (Pair key)
               (resolveSchemaReferences n value root)) kvs = Some (Inr kvs')"
        and v: "v = JObj (stored_entries kvs')"
        by (auto simp: resolve_Suc_obj map_outcome_eq_Some_Inr)
      from tr have "list_all2 (\<lambda>x y. (case x of (key, value) \<Rightarrow> map_outcome (Pair key)
          (resolveSchemaReferences n value root)) = Some (Inr y)) kvs kvs'"
        by (simp add: traverse_Inr_all2)
      then have all2: "list_all2 (\<lambda>(k, c) (k', w). k' = k \<and>
          resolveSchemaReferences n c root = Some (Inr w)) kvs kvs'"
        by (rule list_all2_mono) (auto simp: map_outcome_eq_Some_Inr split: prod.splits)
      have fixed: "\<forall>x \<in> set kvs'. (case x of (key, value) \<Rightarrow> map_outcome (Pair key)
          (resolveSchemaReferences n value root)) = Some (Inr x)"
      proof
        fix x assume "x \<in> set kvs'"
        then obtain i where i: "i < length kvs'" "kvs' ! i = x"
          by (auto simp: in_set_conv_nth)
        with all2 have "case kvs ! i of (k, c) \<Rightarrow> case x of (k', w) \<Rightarrow> k' = k \<and>
          resolveSchemaReferences n c root = Some (Inr w)"
          by (auto simp: list_all2_conv_all_nth)
        then obtain c where "resolveSchemaReferences n c root = Some (Inr (snd x))"
          by (auto split: prod.splits)
        then have "resolveSchemaReferences n (snd x) root = Some (Inr (snd x))"
          by (rule Suc.IH)
        then show "(case x of (key, value) \<Rightarrow> map_outcome (Pair key)
          (resolveSchemaReferences n value root)) = Some (Inr x)"
          by (cases x) simp
      qed
      have "rel_option (\<lambda>c w. resolveSchemaReferences n c root = Some (Inr w))
          (map_of kvs ''$ref'') (map_of kvs' ''$ref'')"
        using all2 by (rule map_of_all2)
      with noref have "\<not> truthy (get_prop (JObj kvs') ''$ref'')"
        by (cases "map_of kvs ''$ref''"; cases "map_of kvs' ''$ref''")
           (auto dest: resolve_falsy)
      then have noref': "\<not> truthy (get_prop (JObj (stored_entries kvs')) ''$ref'')"
        by (simp add: map_of_stored_entries)
      from fixed set_stored_entries [of kvs']
      have "\<forall>x \<in> set (stored_entries kvs'). (case x of (key, value) \<Rightarrow> map_outcome (Pair key)
          (resolveSchemaReferences n value root)) = Some (Inr x)"
        by blast
      from traverse_fixed [OF this] noref' show ?thesis
        by (simp add: v resolve_Suc_obj stored_entries_idem)
    qed
  qed (simp_all add: scalar is_object_def)
qed


lemma resolve_fuel_add:
  "resolveSchemaReferences n s root = Some r \<Longrightarrow> resolveSchemaReferences (n + k) s root = Some r"
  by (induction k) (auto dest: resolve_fuel_step)

text \<open>
  Claim C4. Reference resolution is idempotent: whenever resolving \<open>schema\<close> against
  \<open>rootSchema\<close> returns a value \<open>v\<close>, resolving \<open>v\<close> against the same root returns,
  within the same nesting of calls and so within any larger one, and the value it returns
  is \<open>v\<close> itself.
\<close>

theorem resolveSchemaReferences_idempotent:
  assumes "resolveSchemaReferences n schema rootSchema = Some (Inr v)"
  shows "resolveSchemaReferences (n + k) v rootSchema = Some (Inr v)"
  using assms by (intro resolve_fuel_add resolve_idem)

theorem resolveSchemaReferences_idempotent_witness:
  "resolveSchemaReferences 4
     (JObj [(''a'', JObj [(''$ref'', JStr ''#/defs/x'')]),
            (''b'', JArr [JNum 1, JObj [(''$ref'', JStr ''#/nope'')]])])
     (JObj [(''defs'', JObj [(''x'', JObj [(''type'', JStr ''string'')])])])
   = Some (Inr (JObj [(''a'', JObj [(''type'', JStr ''string'')]),
                      (''b'', JArr [JNum 1, JObj [(''$ref'', JStr ''#/nope'')]])]))
   \<and> resolveSchemaReferences (4 + 2)
     (JObj [(''a'', JObj [(''type'', JStr ''string'')]),
            (''b'', JArr [JNum 1, JObj [(''$ref'', JStr ''#/nope'')]])])
     (JObj [(''defs'', JObj [(''x'', JObj [(''type'', JStr ''string'')])])])
   = Some (Inr (JObj [(''a'', JObj [(''type'', JStr ''string'')]),
                      (''b'', JArr [JNum 1, JObj [(''$ref'', JStr ''#/nope'')]])]))"
proof -
  have h: "resolveSchemaReferences 4
     (JObj [(''a'', JObj [(''$ref'', JStr ''#/defs/x'')]),
            (''b'', JArr [JNum 1, JObj [(''$ref'', JStr ''#/nope'')]])])
     (JObj [(''defs'', JObj [(''x'', JObj [(''type'', JStr ''string'')])])])
   = Some (Inr (JObj [(''a'', JObj [(''type'', JStr ''string'')]),
                      (''b'', JArr [JNum 1, JObj [(''$ref'', JStr ''#/nope'')]])]))"
    by code_simp
  from h resolveSchemaReferences_idempotent [OF h, of 2] show ?thesis by simp
qed

section \<open>Properties of route registration\<close>

lemma bind_outcome_simps [simp]:
  "bind_outcome None f = None"
  "bind_outcome (Some (Inl e)) f = Some (Inl e)"
  "bind_outcome (Some (Inr x)) f = f x"
  by (simp_all add: bind_outcome_def)

lemma bind_outcome_eq_Some_Inr:
  "bind_outcome r f = Some (Inr y) \<longleftrightarrow> (\<exists>x. r = Some (Inr x) \<and> f x = Some (Inr y))"
  by (cases r) (auto simp: bind_outcome_def split: sum.splits)

lemma onRoute_hidden: "is_hidden ro \<Longrightarrow> onRoute fuel routes ro = Some (Inr routes)"
  by (simp add: onRoute_def)

lemma onRoute_no_method:
  "route_methods ro = [] \<Longrightarrow> onRoute fuel routes ro = Some (Inr routes)"
  by (simp add: onRoute_def)

lemma onRoute_appends:
  assumes "onRoute fuel routes ro = Some (Inr routes')"
    and "\<not> is_hidden ro" and "route_methods ro \<noteq> []"
  shows "\<exists>r. routes' = routes @ [r] \<and> name r = route_name ro
           \<and> methods r = route_methods ro \<and> url r = route_url ro"
  using assms by (auto simp: onRoute_def bind_outcome_eq_Some_Inr)

lemma str_or_simps:
  "str_or (Some (c # cs)) b = Some (c # cs)"
  "str_or (Some []) b = b"
  "str_or None b = b"
  by (simp_all add: str_or_def str_truthy_def)

text \<open>
  Claim C1, as stated, fails where the override name is present but empty: the route
  \<open>GET /hello\<close> configured with the override name \<open>""\<close> and the operationId \<open>hello\<close>
  is registered under the name \<open>hello\<close>, not under its override.
\<close>

theorem empty_override_name_is_skipped:
  "config_name empty_name_route = Some []
   \<and> route_name empty_name_route = ''hello''
   \<and> onRoute 1 [] empty_name_route = Some (Inr
      [\<lparr>methods = [''GET''], url = ''/hello'', name = ''hello'', summary = None,
        description = None, tags = Some [], headers = JUndef, querystring = JUndef,
        body = JUndef, params = JUndef, response = JUndef\<rparr>])"
  by code_simp

text \<open>
  Claim C1, amended. A route that the hook registers is appended with the name
  \<open>route_name\<close>, and the converter uses that name as the tool name. The name is the
  override \<open>config.mcp.name\<close> when that is present and not empty; otherwise the schema's
  \<open>operationId\<close> when that is a non-empty string; otherwise, when \<open>operationId\<close> is left
  out or falsy, the method (a method array joined by commas), an underscore and the URL
  with every \<open>/\<close>, \<open>:\<close>, \<open>{\<close> and \<open>}\<close> replaced by an underscore. The route \<open>GET /hello\<close>
  with no schema and no configuration gets the name \<open>GET__hello\<close>.
\<close>

theorem route_name_precedence:
  assumes "onRoute fuel routes ro = Some (Inr routes')"
    and "\<not> is_hidden ro" and "route_methods ro \<noteq> []"
  shows "(\<exists>r. routes' = routes @ [r] \<and> buildToolName r = route_name ro)
    \<and> (\<forall>n. config_name ro = Some n \<and> n \<noteq> [] \<longrightarrow> route_name ro = n)
    \<and> (\<forall>s. \<not> str_truthy (config_name ro)
            \<and> opt_prop (route_schema ro) ''operationId'' = JStr s \<and> s \<noteq> []
          \<longrightarrow> route_name ro = s)
    \<and> (\<not> str_truthy (config_name ro) \<and> \<not> truthy (opt_prop (route_schema ro) ''operationId'')
          \<longrightarrow> route_name ro = method_text (route_method ro) @ ''_''
                @ map (\<lambda>c. if c = CHR ''/'' \<or> c = CHR '':'' \<or> c = CHR ''{'' \<or> c = CHR ''}''
                            then CHR ''_'' else c) (route_url ro))
    \<and> route_name get_hello = ''GET__hello''"
proof (intro conjI allI impI)
  show "route_name get_hello = ''GET__hello''"
    by code_simp
next
  from onRoute_appends [OF assms]
  show "\<exists>r. routes' = routes @ [r] \<and> buildToolName r = route_name ro"
    by (auto simp: buildToolName_def)
next
  fix n assume "config_name ro = Some n \<and> n \<noteq> []"
  then show "route_name ro = n"
    by (cases n) (auto simp: route_name_def str_or_simps)
next
  fix s assume "\<not> str_truthy (config_name ro)
      \<and> opt_prop (route_schema ro) ''operationId'' = JStr s \<and> s \<noteq> []"
  then show "route_name ro = s"
    by (cases s) (auto simp: route_name_def str_or_def str_truthy_def as_string_def)
next
  assume "\<not> str_truthy (config_name ro) \<and> \<not> truthy (opt_prop (route_schema ro) ''operationId'')"
  then have "route_name ro = generated_name ro"
    by (cases "opt_prop (route_schema ro) ''operationId''")
       (auto simp: route_name_def str_or_def str_truthy_def as_string_def split: option.splits)
  then show "route_name ro = method_text (route_method ro) @ ''_''
      @ map (\<lambda>c. if c = CHR ''/'' \<or> c = CHR '':'' \<or> c = CHR ''{'' \<or> c = CHR ''}''
                  then CHR ''_'' else c) (route_url ro)"
    by (simp add: generated_name_def replace_separators_def)
qed

theorem route_name_precedence_witness:
  "onRoute 1 [] get_hello = Some (Inr
      [\<lparr>methods = [''GET''], url = ''/hello'', name = ''GET__hello'', summary = None,
        description = None, tags = Some [], headers = JUndef, querystring = JUndef,
        body = JUndef, params = JUndef, response = JUndef\<rparr>])
   \<and> route_name get_hello = ''GET__hello''"
proof -
  have reg: "onRoute 1 [] get_hello = Some (Inr
      [\<lparr>methods = [''GET''], url = ''/hello'', name = ''GET__hello'', summary = None,
        description = None, tags = Some [], headers = JUndef, querystring = JUndef,
        body = JUndef, params = JUndef, response = JUndef\<rparr>])"
    by code_simp
  have vis: "\<not> is_hidden get_hello" by (simp add: is_hidden_def get_hello_def)
  have meth: "route_methods get_hello \<noteq> []"
    by (simp add: route_methods_def method_list_def get_hello_def valid_methods_def)
  have a: "\<not> str_truthy (config_name get_hello)
      \<and> \<not> truthy (opt_prop (route_schema get_hello) ''operationId'')"
    by (simp add: str_truthy_def config_name_def get_hello_def opt_prop_def)
  from route_name_precedence [OF reg vis meth] a
  have "route_name get_hello = method_text (route_method get_hello) @ ''_''
                @ map (\<lambda>c. if c = CHR ''/'' \<or> c = CHR '':'' \<or> c = CHR ''{'' \<or> c = CHR ''}''
                            then CHR ''_'' else c) (route_url get_hello)"
    by blast
  then have "route_name get_hello = ''GET__hello''"
    by (simp add: get_hello_def method_text_def)
  with reg show ?thesis by simp
qed


lemma onRoute_valid:
  assumes "onRoute fuel routes ro = Some (Inr routes')" and "list_all valid_route routes"
  shows "list_all valid_route routes'"
proof (cases "is_hidden ro \<or> route_methods ro = []")
  case True
  with assms show ?thesis by (auto simp: onRoute_hidden onRoute_no_method)
next
  case False
  with onRoute_appends [OF assms(1)] obtain r where
    r: "routes' = routes @ [r]" "methods r = route_methods ro" by auto
  with False have "valid_route r"
    by (auto simp: valid_route_def route_methods_def)
  with r assms(2) show ?thesis by simp
qed

lemma register_all_valid:
  "register_all fuel routes ros = Some (Inr routes') \<Longrightarrow> list_all valid_route routes \<Longrightarrow>
   list_all valid_route routes'"
proof (induction ros arbitrary: routes)
  case Nil
  then show ?case by simp
next
  case (Cons ro ros)
  from Cons.prems(1) obtain mid where
    mid: "onRoute fuel routes ro = Some (Inr mid)" "register_all fuel mid ros = Some (Inr routes')"
    by (auto simp: bind_outcome_eq_Some_Inr)
  from onRoute_valid [OF mid(1) Cons.prems(2)] have "list_all valid_route mid" .
  with Cons.IH mid(2) show ?case by blast
qed

text \<open>
  Claim C9. Registration keeps of a route's declared methods those of the vocabulary
  DELETE, GET, HEAD, PATCH, POST, PUT, OPTIONS, and appends nothing when none is left.
  So every route of the registry built by any sequence of registrations from the empty
  registry has at least one method, and all its methods are of the vocabulary.
\<close>

theorem registry_methods_valid:
  assumes "register_all fuel [] ros = Some (Inr routes)"
  shows "(\<forall>r \<in> set routes. methods r \<noteq> [] \<and> set (methods r) \<subseteq> set valid_methods)
    \<and> (\<forall>ro rs. route_methods ro = filter (\<lambda>m. m \<in> set valid_methods) (method_list ro)
          \<and> (route_methods ro = [] \<longrightarrow> onRoute fuel rs ro = Some (Inr rs)))"
proof -
  have "list_all valid_route []" by simp
  with assms have "list_all valid_route routes" by (rule register_all_valid)
  then show ?thesis
    by (auto simp: list_all_iff valid_route_def route_methods_def onRoute_no_method)
qed

theorem registry_methods_valid_witness:
  "register_all 1 [] [get_hello, trace_route] = Some (Inr
      [\<lparr>methods = [''GET''], url = ''/hello'', name = ''GET__hello'', summary = None,
        description = None, tags = Some [], headers = JUndef, querystring = JUndef,
        body = JUndef, params = JUndef, response = JUndef\<rparr>])
   \<and> route_methods trace_route = []"
proof -
  have reg: "register_all 1 [] [get_hello, trace_route] = Some (Inr
      [\<lparr>methods = [''GET''], url = ''/hello'', name = ''GET__hello'', summary = None,
        description = None, tags = Some [], headers = JUndef, querystring = JUndef,
        body = JUndef, params = JUndef, response = JUndef\<rparr>])"
    by code_simp
  from registry_methods_valid [OF reg]
  have "route_methods trace_route = filter (\<lambda>m. m \<in> set valid_methods) (method_list trace_route)"
    by blast
  then have "route_methods trace_route = []"
    by (simp add: trace_route_def method_list_def valid_methods_def)
  with reg show ?thesis by simp
qed

lemma register_all_append:
  "register_all fuel routes (xs @ ys) =
     bind_outcome (register_all fuel routes xs) (\<lambda>mid. register_all fuel mid ys)"
proof (induction xs arbitrary: routes)
  case Nil
  then show ?case by simp
next
  case (Cons x xs)
  show ?case
    by (cases "onRoute fuel routes x") (auto simp: Cons.IH bind_outcome_def split: sum.splits)
qed

text \<open>
  Claim C6. A route whose configuration marks it hidden leaves the registry as it was:
  the hook returns before anything is appended. Hence, whatever is registered before and
  after it, the registry, and with it the catalogue the ListTools handler builds under
  any options, is the one obtained had the hidden route never been registered.
\<close>

theorem hidden_route_never_listed:
  assumes "is_hidden ro"
  shows "onRoute fuel routes ro = Some (Inr routes)
    \<and> register_all fuel routes (before @ ro # after) = register_all fuel routes (before @ after)
    \<and> map_outcome (list_tools stringify options) (register_all fuel routes (before @ ro # after))
        = map_outcome (list_tools stringify options) (register_all fuel routes (before @ after))"
proof -
  have h: "onRoute fuel rs ro = Some (Inr rs)" for rs
    using assms by (rule onRoute_hidden)
  have "register_all fuel routes (before @ ro # after) = register_all fuel routes (before @ after)"
    by (simp add: register_all_append h)
  with h show ?thesis by simp
qed

theorem hidden_route_never_listed_witness:
  "is_hidden hidden_route
   \<and> register_all 1 [] [get_hello, hidden_route] = register_all 1 [] [get_hello]
   \<and> map_outcome (list_tools stub_stringify default_options)
         (register_all 1 [] [get_hello, hidden_route])
       = Some (Inr (Inr
          [\<lparr>tool_name = ''GET__hello'', tool_description = ''GET__hello'',
            inputSchema = \<lparr>schema_type = ''object'', properties = [], required = None,
                            title = ''GET__helloParameters''\<rparr>\<rparr>]))"
proof -
  have h: "is_hidden hidden_route" by code_simp
  note inst = hidden_route_never_listed [OF h, of 1 "[]" "[get_hello]" "[]"
      stub_stringify default_options]
  from inst have e: "register_all 1 [] [get_hello, hidden_route] = register_all 1 [] [get_hello]"
    by simp
  have v: "map_outcome (list_tools stub_stringify default_options)
         (register_all 1 [] [get_hello])
       = Some (Inr (Inr
          [\<lparr>tool_name = ''GET__hello'', tool_description = ''GET__hello'',
            inputSchema = \<lparr>schema_type = ''object'', properties = [], required = None,
                            title = ''GET__helloParameters''\<rparr>\<rparr>]))"
    by code_simp
  from h e v show ?thesis by simp
qed

section \<open>Properties of the session endpoints\<close>

lemma sse_run_closed:
  "active sid = None \<Longrightarrow> \<not> list_ex (opens sid) events \<Longrightarrow> sse_run active events sid = None"
proof (induction events arbitrary: active)
  case Nil
  then show ?case by (simp add: sse_run_def)
next
  case (Cons ev events)
  from Cons.prems have "sse_step active ev sid = None"
    by (cases ev) (auto simp: sse_connect_def sse_close_def)
  with Cons show ?case by (simp add: sse_run_def)
qed

text \<open>
  Claim C7. A message whose session identifier has no transport in the map is answered
  404 with \<open>{error: "Session not found"}\<close>; one whose transport's handler throws is
  answered 500 with \<open>{error: "Internal server error"}\<close>. Once the close handler of a
  session has run, and whatever connections, closes and messages follow, a message
  addressed to that identifier is answered 404, as long as no later connection is opened
  under the same identifier (the SDK draws a fresh identifier for every connection).
\<close>

theorem closed_session_not_found:
  "(active sid = None \<longrightarrow>
      post_message handle active sid msg
        = Reply 404 (JObj [(''error'', JStr ''Session not found'')]))
   \<and> (\<forall>transport e. active sid = Some transport \<and> handle transport msg = Inl e \<longrightarrow>
      post_message handle active sid msg
        = Reply 500 (JObj [(''error'', JStr ''Internal server error'')]))
   \<and> (\<not> list_ex (opens sid) events \<longrightarrow>
      post_message handle (sse_run (sse_close active sid) events) sid msg
        = Reply 404 (JObj [(''error'', JStr ''Session not found'')]))"
proof (intro conjI allI impI)
  assume "active sid = None"
  then show "post_message handle active sid msg
      = Reply 404 (JObj [(''error'', JStr ''Session not found'')])"
    by (simp add: post_message_def)
next
  fix transport e
  assume "active sid = Some transport \<and> handle transport msg = Inl e"
  then show "post_message handle active sid msg
      = Reply 500 (JObj [(''error'', JStr ''Internal server error'')])"
    by (simp add: post_message_def)
next
  assume "\<not> list_ex (opens sid) events"
  moreover have "sse_close active sid sid = None" by (simp add: sse_close_def)
  ultimately have "sse_run (sse_close active sid) events sid = None"
    by (simp add: sse_run_closed)
  then show "post_message handle (sse_run (sse_close active sid) events) sid msg
      = Reply 404 (JObj [(''error'', JStr ''Session not found'')])"
    by (simp add: post_message_def)
qed

theorem closed_session_not_found_witness:
  "post_message sample_handle (sse_connect Map.empty ''s1'' 7) ''s1'' (JNum 1) = ByTransport 202
   \<and> post_message sample_handle (sse_connect Map.empty ''s1'' 7) ''s0'' (JNum 1)
       = Reply 404 (JObj [(''error'', JStr ''Session not found'')])
   \<and> post_message sample_handle (sse_connect Map.empty ''s1'' 7) ''s1'' JNull
       = Reply 500 (JObj [(''error'', JStr ''Internal server error'')])
   \<and> \<not> list_ex (opens ''s1'') sample_events
   \<and> post_message sample_handle
         (sse_run (sse_close (sse_connect Map.empty ''s1'' 7) ''s1'') sample_events) ''s1'' (JNum 1)
       = Reply 404 (JObj [(''error'', JStr ''Session not found'')])"
proof -
  have ok: "post_message sample_handle (sse_connect Map.empty ''s1'' 7) ''s1'' (JNum 1)
      = ByTransport 202"
    by (simp add: post_message_def sse_connect_def sample_handle_def)
  have none: "sse_connect Map.empty ''s1'' (7::nat) ''s0'' = None"
    by (simp add: sse_connect_def)
  have throws: "sse_connect Map.empty ''s1'' (7::nat) ''s1'' = Some 7 \<and> sample_handle 7 JNull = Inl ()"
    by (simp add: sse_connect_def sample_handle_def)
  have fresh: "\<not> list_ex (opens ''s1'') sample_events"
    by (simp add: sample_events_def)
  note inst = closed_session_not_found [where handle = sample_handle and events = sample_events]
  from inst [of "sse_connect Map.empty ''s1'' 7" "''s0''" "JNum 1"] none
  have a: "post_message sample_handle (sse_connect Map.empty ''s1'' 7) ''s0'' (JNum 1)
       = Reply 404 (JObj [(''error'', JStr ''Session not found'')])" by blast
  from inst [of "sse_connect Map.empty ''s1'' 7" "''s1''" JNull] throws
  have b: "post_message sample_handle (sse_connect Map.empty ''s1'' 7) ''s1'' JNull
       = Reply 500 (JObj [(''error'', JStr ''Internal server error'')])" by blast
  from inst [of "sse_connect Map.empty ''s1'' 7" "''s1''" "JNum 1"] fresh
  have c: "post_message sample_handle
         (sse_run (sse_close (sse_connect Map.empty ''s1'' 7) ''s1'') sample_events) ''s1'' (JNum 1)
       = Reply 404 (JObj [(''error'', JStr ''Session not found'')])" by blast
  from ok a b fresh c show ?thesis by blast
qed

section \<open>Properties of argument classification\<close>

















section \<open>Properties of the input schema\<close>

lemma bind_err_simps [simp]:
  "bind_err (Inl e) f = Inl e"
  "bind_err (Inr x) f = f x"
  by (simp_all add: bind_err_def)





lemma buildToolInputSchema_b_eq: "buildToolInputSchema_b route = buildToolInputSchema route"
  by (simp add: buildToolInputSchema_b_def buildToolInputSchema_def)



lemma includes_key_returns: "required_ok grp \<Longrightarrow> \<exists>b. includes_key (get_prop grp ''required'') key = Inr b"
  by (cases "get_prop grp ''required''") (auto simp: required_ok_def includes_key_def)

lemma fold_err_returns:
  assumes "required_ok grp" and "\<forall>(key, schema) \<in> set es. \<exists>d. describe key schema = Inr d"
  shows "\<exists>acc'. fold_err (add_property describe grp) es acc = Inr acc'"
  using assms(2)
proof (induction es arbitrary: acc)
  case Nil
  then show ?case by simp
next
  case (Cons a es)
  obtain key schema where a: "a = (key, schema)" by (cases a)
  obtain props req where acc: "acc = (props, req)" by (cases acc)
  from Cons.prems a obtain d where d: "describe key schema = Inr d" by auto
  from includes_key_returns [OF assms(1)] obtain b where
    b: "includes_key (get_prop grp ''required'') key = Inr b" by blast
  from Cons.prems have "\<forall>(key, schema) \<in> set es. \<exists>d. describe key schema = Inr d" by simp
  from Cons.IH [OF this] show ?case
    by (simp add: a acc d b)
qed

lemma add_group_returns:
  "required_ok grp \<Longrightarrow> \<forall>(key, schema) \<in> set (group_entries grp). \<exists>d. describe key schema = Inr d
   \<Longrightarrow> \<exists>acc'. add_group describe grp acc = Inr acc'"
  unfolding add_group_def by (rule fold_err_returns)

lemma buildToolInputSchema_returns:
  assumes "required_ok (headers route)" "required_ok (params route)"
    "required_ok (querystring route)" "required_ok (body route)"
    and "\<forall>(key, schema) \<in> set (group_entries (headers route)). \<not> nullish schema"
  shows "\<exists>s. buildToolInputSchema route = Inr s"
proof -
  from assms(5) have "\<forall>(key, schema) \<in> set (group_entries (headers route)).
      \<exists>d. header_description key schema = Inr d"
    by (auto simp: header_description_def)
  from add_group_returns [OF assms(1) this] obtain a1 where
    "add_group header_description (headers route) ([], []) = Inr a1" by blast
  moreover from add_group_returns [OF assms(2), of "fixed_description ''Path parameter: ''" a1]
  obtain a2 where
    "add_group (fixed_description ''Path parameter: '') (params route) a1 = Inr a2"
    by (auto simp: fixed_description_def)
  moreover from add_group_returns [OF assms(3), of "fixed_description ''Query parameter: ''" a2]
  obtain a3 where
    "add_group (fixed_description ''Query parameter: '') (querystring route) a2 = Inr a3"
    by (auto simp: fixed_description_def)
  moreover from add_group_returns [OF assms(4), of "fixed_description ''Body parameter: ''" a3]
  obtain a4 where
    "add_group (fixed_description ''Body parameter: '') (body route) a3 = Inr a4"
    by (auto simp: fixed_description_def)
  ultimately show ?thesis
    by (simp add: buildToolInputSchema_def)
qed

section \<open>Properties of the two tool converters\<close>

lemma filter_Boolean_simps [simp]:
  "filter_Boolean [] = []"
  "filter_Boolean (None # ps) = filter_Boolean ps"
  "filter_Boolean (Some [] # ps) = filter_Boolean ps"
  "filter_Boolean (Some (c # cs) # ps) = (c # cs) # filter_Boolean ps"
  by (simp_all add: filter_Boolean_def List.map_filter_simps)

lemma tags_line_nonempty: "tags_line route \<noteq> []"
  by (simp add: tags_line_def)

lemma str_truthy_simps [simp]:
  "str_truthy None = False"
  "str_truthy (Some []) = False"
  "str_truthy (Some (c # cs)) = True"
  by (simp_all add: str_truthy_def)

lemma append_to_simps [simp]:
  "append_to None s = Some (''undefined'' @ s)"
  "append_to (Some t) s = Some (t @ s)"
  by (simp_all add: append_to_def)

lemma string_cases:
  obtains "(d :: string option) = None" | "d = Some []" | c cs where "d = Some (c # cs)"
  by (cases d; cases "the d") auto

lemma desc_a_plain:
  assumes "\<not> (truthy (response route) \<and> flag_on (describeFullSchema options))"
  shows "buildToolDescription stringify options route =
     (if join [newline, newline] (filter_Boolean
            (if has_tags route then [summary route, description route] @ [Some (tags_line route)]
             else [summary route, description route])) \<noteq> []
      then join [newline, newline] (filter_Boolean
            (if has_tags route then [summary route, description route] @ [Some (tags_line route)]
             else [summary route, description route]))
      else name route)"
proof -
  from assms have c: "(truthy (response route) \<and> flag_on (describeFullSchema options)) = False"
    by simp
  show ?thesis
    by (simp only: buildToolDescription_def Let_def c if_False)
qed

lemma desc_b_plain:
  assumes "\<not> (truthy (response route) \<and> flag_on (describeFullSchema options))"
  shows "buildToolDescription_b stringify options route =
     (if str_truthy
          (if has_tags route
           then append_to
                  (if str_truthy (description route)
                   then append_to (summary route) ([newline, newline] @ the (description route))
                   else summary route)
                  ([newline, newline] @ tags_line route)
           else if str_truthy (description route)
                then append_to (summary route) ([newline, newline] @ the (description route))
                else summary route)
      then the
          (if has_tags route
           then append_to
                  (if str_truthy (description route)
                   then append_to (summary route) ([newline, newline] @ the (description route))
                   else summary route)
                  ([newline, newline] @ tags_line route)
           else if str_truthy (description route)
                then append_to (summary route) ([newline, newline] @ the (description route))
                else summary route)
      else name route)"
proof -
  from assms have c: "(truthy (response route) \<and> flag_on (describeFullSchema options)) = False"
    by simp
  show ?thesis
    by (simp only: buildToolDescription_b_def Let_def c if_False)
qed

lemma description_agree:
  assumes "\<not> (truthy (response route) \<and> flag_on (describeFullSchema options))"
    and "str_truthy (summary route) \<or> (\<not> str_truthy (description route) \<and> \<not> has_tags route)"
  shows "buildToolDescription_b stringify options route
       = buildToolDescription stringify options route"
proof -
  obtain tc ts where t: "tags_line route = tc # ts"
    using tags_line_nonempty [of route] by (cases "tags_line route") auto
  show ?thesis
    unfolding desc_a_plain [OF assms(1)] desc_b_plain [OF assms(1)]
    using assms(2)
    by (cases "summary route" rule: string_cases; cases "description route" rule: string_cases;
        cases "has_tags route") (simp_all add: t)
qed

text \<open>
  Claim C10 at a route with an absent summary and a present description, the case the
  claim singles out. For the route \<open>hello\<close> with no summary and the description
  \<open>Says hello\<close> the converter of \<open>services/tool-converter.ts\<close> describes the tool as
  \<open>Says hello\<close>; the converter of \<open>unnamed/part_000\<close> appends to the absent summary and
  describes it as \<open>undefined\<close>, a blank line and \<open>Says hello\<close>. The two converters do
  not return the same tool.
\<close>

theorem converters_differ_without_summary:
  "map_sum id tool_description (convertRouteToTool stub_stringify default_options says_hello_route)
      = Inr ''Says hello''
   \<and> map_sum id tool_description (convertRouteToTool_b stub_stringify default_options says_hello_route)
      = Inr (''undefined'' @ [newline, newline] @ ''Says hello'')
   \<and> convertRouteToTool_b stub_stringify default_options says_hello_route
      \<noteq> convertRouteToTool stub_stringify default_options says_hello_route"
proof -
  have a: "convertRouteToTool stub_stringify default_options says_hello_route =
      Inr \<lparr>tool_name = ''hello'', tool_description = ''Says hello'',
           inputSchema = \<lparr>schema_type = ''object'', properties = [], required = None,
                           title = ''helloParameters''\<rparr>\<rparr>"
    by code_simp
  have b: "convertRouteToTool_b stub_stringify default_options says_hello_route =
      Inr \<lparr>tool_name = ''hello'',
           tool_description = ''undefined'' @ [newline, newline] @ ''Says hello'',
           inputSchema = \<lparr>schema_type = ''object'', properties = [], required = None,
                           title = ''helloParameters''\<rparr>\<rparr>"
    by code_simp
  show ?thesis
    unfolding a b by simp
qed

text \<open>
  Where the two converter files agree. They return the same name and the same input
  schema for every route and every options value. They return the same description, and
  so the same tool, whenever no response block is written (the full-schema option is off
  or the route has no response schema) and either the summary is a non-empty string or
  the route has neither a description nor a tag.
\<close>

theorem converters_agree:
  "buildToolName_b route = buildToolName route
   \<and> buildToolInputSchema_b route = buildToolInputSchema route
   \<and> (\<not> (truthy (response route) \<and> flag_on (describeFullSchema options))
        \<and> (str_truthy (summary route)
             \<or> \<not> str_truthy (description route) \<and> \<not> has_tags route)
       \<longrightarrow> buildToolDescription_b stringify options route
             = buildToolDescription stringify options route
           \<and> convertRouteToTool_b stringify options route
             = convertRouteToTool stringify options route)"
proof (intro conjI impI)
  show "buildToolName_b route = buildToolName route"
    by (simp add: buildToolName_b_def buildToolName_def)
  show "buildToolInputSchema_b route = buildToolInputSchema route"
    by (rule buildToolInputSchema_b_eq)
next
  assume c: "\<not> (truthy (response route) \<and> flag_on (describeFullSchema options))
        \<and> (str_truthy (summary route)
             \<or> \<not> str_truthy (description route) \<and> \<not> has_tags route)"
  then show d: "buildToolDescription_b stringify options route
      = buildToolDescription stringify options route"
    by (intro description_agree) blast+
  then show "convertRouteToTool_b stringify options route
      = convertRouteToTool stringify options route"
    by (simp add: convertRouteToTool_b_def convertRouteToTool_def buildToolInputSchema_b_eq
        buildToolName_b_def buildToolName_def)
qed

theorem converters_agree_witness:
  "\<not> (truthy (response hello_world_route) \<and> flag_on (describeFullSchema default_options))
   \<and> str_truthy (summary hello_world_route)
   \<and> convertRouteToTool_b stub_stringify default_options hello_world_route
       = convertRouteToTool stub_stringify default_options hello_world_route
   \<and> convertRouteToTool stub_stringify default_options hello_world_route =
      Inr \<lparr>tool_name = ''hello'',
           tool_description = ''Hello World'' @ [newline, newline] @ ''Says hello'',
           inputSchema = \<lparr>schema_type = ''object'', properties = [], required = None,
                           title = ''helloParameters''\<rparr>\<rparr>"
proof -
  have c: "\<not> (truthy (response hello_world_route) \<and> flag_on (describeFullSchema default_options))"
    by (simp add: hello_world_route_def)
  have s: "str_truthy (summary hello_world_route)"
    by (simp add: hello_world_route_def)
  from converters_agree [of hello_world_route default_options stub_stringify] c s
  have e: "convertRouteToTool_b stub_stringify default_options hello_world_route
       = convertRouteToTool stub_stringify default_options hello_world_route"
    by blast
  have v: "convertRouteToTool stub_stringify default_options hello_world_route =
      Inr \<lparr>tool_name = ''hello'',
           tool_description = ''Hello World'' @ [newline, newline] @ ''Says hello'',
           inputSchema = \<lparr>schema_type = ''object'', properties = [], required = None,
                           title = ''helloParameters''\<rparr>\<rparr>"
    by code_simp
  from c s e v show ?thesis by blast
qed

section \<open>Properties of example synthesis\<close>

lemma generateExample_scalar:
  assumes "truthy schema" and "getSchemaType schema = JStr t"
    and "t \<in> {''string'', ''number'', ''integer'', ''boolean''}"
  shows "generateExampleFromSchema schema =
           (if truthy (get_prop schema ''example'') then get_prop schema ''example''
            else if truthy (get_prop schema ''default'') then get_prop schema ''default''
            else placeholder t)"
proof -
  from assms(3) consider "t = ''string''" | "t = ''number''" | "t = ''integer''" | "t = ''boolean''"
    by auto
  then show ?thesis
  proof cases
    case 1
    with assms(1,2) show ?thesis
      by (subst generateExampleFromSchema.simps) (simp add: Let_def js_or_def placeholder_def)
  next
    case 2
    with assms(1,2) show ?thesis
      by (subst generateExampleFromSchema.simps) (simp add: Let_def js_or_def placeholder_def)
  next
    case 3
    with assms(1,2) show ?thesis
      by (subst generateExampleFromSchema.simps) (simp add: Let_def js_or_def placeholder_def)
  next
    case 4
    with assms(1,2) show ?thesis
      by (subst generateExampleFromSchema.simps) (simp add: Let_def js_or_def placeholder_def)
  qed
qed

lemma generateExample_array:
  assumes "truthy schema" and "getSchemaType schema = JStr ''array''"
  shows "generateExampleFromSchema schema =
           (if truthy (get_prop schema ''items'')
            then JArr [generateExampleFromSchema (get_prop schema ''items'')]
            else JArr [])"
  using assms by (subst generateExampleFromSchema.simps) (simp add: Let_def)

lemma generateExample_object:
  assumes "truthy schema" and "getSchemaType schema = JStr ''object''"
  shows "generateExampleFromSchema schema =
           (if truthy (get_prop schema ''properties'')
            then JObj (stored_entries
                         (map (\<lambda>(key, prop). (key, generateExampleFromSchema prop))
                            (object_entries (get_prop schema ''properties''))))
            else JObj [])"
  using assms by (subst generateExampleFromSchema.simps) (simp add: Let_def)

text \<open>
  Claim C3 at a schema whose example is a falsy value: the boolean schema with example
  \<open>false\<close> and default \<open>true\<close> yields \<open>true\<close>, and the integer schema with example \<open>0\<close>
  and default \<open>7\<close> yields \<open>7\<close>; in both the example field is present and is not what is
  returned.
\<close>

theorem generateExample_skips_falsy_example:
  "generateExampleFromSchema flag_schema = JBool True
   \<and> get_prop flag_schema ''example'' = JBool False
   \<and> generateExampleFromSchema count_schema = JNum 7
   \<and> get_prop count_schema ''example'' = JNum 0"
  by code_simp

text \<open>
  What example synthesis does on a truthy schema node. For the scalar types it returns
  the example field when that is truthy, else the default field when that is truthy, else
  the placeholder of the type; for \<open>array\<close> a one-element array of the item's example
  when \<open>items\<close> is truthy and the empty array otherwise; for \<open>object\<close> the object that
  maps each entry of \<open>properties\<close> to its example (an entry under \<open>__proto__\<close> is not
  stored) when \<open>properties\<close> is truthy and the empty object otherwise.
\<close>

theorem generateExample_dispatch:
  assumes "truthy schema"
  shows "(getSchemaType schema = JStr t
            \<and> t \<in> {''string'', ''number'', ''integer'', ''boolean''} \<longrightarrow>
           generateExampleFromSchema schema =
             (if truthy (get_prop schema ''example'') then get_prop schema ''example''
              else if truthy (get_prop schema ''default'') then get_prop schema ''default''
              else placeholder t))
    \<and> (getSchemaType schema = JStr ''array'' \<longrightarrow>
           generateExampleFromSchema schema =
             (if truthy (get_prop schema ''items'')
              then JArr [generateExampleFromSchema (get_prop schema ''items'')]
              else JArr []))
    \<and> (getSchemaType schema = JStr ''object'' \<longrightarrow>
           generateExampleFromSchema schema =
             (if truthy (get_prop schema ''properties'')
              then JObj (stored_entries
                           (map (\<lambda>(key, prop). (key, generateExampleFromSchema prop))
                              (object_entries (get_prop schema ''properties''))))
              else JObj []))"
proof (intro conjI impI)
  assume "getSchemaType schema = JStr t
      \<and> t \<in> {''string'', ''number'', ''integer'', ''boolean''}"
  with assms show "generateExampleFromSchema schema =
      (if truthy (get_prop schema ''example'') then get_prop schema ''example''
       else if truthy (get_prop schema ''default'') then get_prop schema ''default''
       else placeholder t)"
    by (intro generateExample_scalar) simp_all
next
  assume "getSchemaType schema = JStr ''array''"
  with assms show "generateExampleFromSchema schema =
      (if truthy (get_prop schema ''items'')
       then JArr [generateExampleFromSchema (get_prop schema ''items'')] else JArr [])"
    by (rule generateExample_array)
next
  assume "getSchemaType schema = JStr ''object''"
  with assms show "generateExampleFromSchema schema =
      (if truthy (get_prop schema ''properties'')
       then JObj (stored_entries
                    (map (\<lambda>(key, prop). (key, generateExampleFromSchema prop))
                       (object_entries (get_prop schema ''properties''))))
       else JObj [])"
    by (rule generateExample_object)
qed

theorem generateExample_dispatch_witness:
  "truthy list_schema \<and> getSchemaType list_schema = JStr ''array''
   \<and> generateExampleFromSchema list_schema = JArr [JNum 3]"
proof -
  have t: "truthy list_schema" by (simp add: list_schema_def)
  have a: "getSchemaType list_schema = JStr ''array''"
    by (simp add: list_schema_def getSchemaType_def)
  from generateExample_dispatch [OF t, of "''array''", THEN conjunct2, THEN conjunct1] a
  have "generateExampleFromSchema list_schema =
      (if truthy (get_prop list_schema ''items'')
       then JArr [generateExampleFromSchema (get_prop list_schema ''items'')] else JArr [])"
    by simp
  moreover have "generateExampleFromSchema (get_prop list_schema ''items'') = JNum 3"
    by code_simp
  moreover have "truthy (get_prop list_schema ''items'')"
    by (simp add: list_schema_def)
  ultimately have "generateExampleFromSchema list_schema = JArr [JNum 3]" by simp
  with t a show ?thesis by simp
qed

end
